theory Spec2Isabelle
  imports Complex_Main
begin

section \<open>Diffraction through pinholes: the function \<open>pindr\<close> of diffhole.py\<close>

text \<open>
  The development embeds the numerical core of \<^verbatim>\<open>diffhole.py\<close>, the function
  \<^verbatim>\<open>pindr\<close>, and settles the properties stated about it.

  Scope of the embedding.
  \<^item> Numbers are exact: a Python or numpy float is a \<^typ>\<open>real\<close>, a complex float a
    \<^typ>\<open>complex\<close>. Rounding, overflow, Inf and NaN are outside the model. Where
    numpy divides elementwise by an entry that is zero (a grid point on a pinhole with
    \<open>d = 0\<close>), numpy warns and stores Inf/NaN; HOL's total division gives 0 there,
    so the values of the model mean nothing at such entries.
  \<^item> A one-dimensional numpy array is a list, a two-dimensional one a list of rows
    (axis 0 is the outer list, axis 1 the inner one).
  \<^item> An exception is a value: \<open>pindr\<close> returns \<open>error + grid\<close>. The only operation of
    \<open>pindr\<close> on Python scalars that can raise on real inputs is the division
    \<^verbatim>\<open>2.0*np.pi/k\<close> (\<^verbatim>\<open>np.pi\<close> is a Python float, so this is Python's float
    division, which raises ZeroDivisionError for \<open>k = 0\<close>); every other division
    is either by the loop-guarded \<open>nholes\<close> or elementwise on numpy arrays.
  \<^item> The expression \<^verbatim>\<open>n / 2\<close> divides two Python ints, and its value depends on the
    interpreter: floor division under Python 2, true division under Python 3. The file
    is written for Python 2 (PyQt4, \<^verbatim>\<open>#!/usr/bin/python\<close>, a \<^verbatim>\<open>print a1, b1\<close>
    statement in a comment, and float literals \<^verbatim>\<open>/100.0\<close>, \<^verbatim>\<open>2.0*\<close> wherever a
    true division is wanted). The interpreter is a parameter of the model, so that every
    statement says for which of the two it holds.
  \<^item> \<open>npx\<close> and \<open>nholes\<close> are natural numbers: non-positive values are outside the
    documented domain (\<open>nholes = 0\<close> is in the type and means an empty loop).
  \<^item> \<^verbatim>\<open>fftpack.fft2\<close> and \<^verbatim>\<open>fftpack.fftshift\<close> are library functions; they are
    modelled by what the library documents and implements: the two-dimensional discrete
    Fourier transform as the double sum, and \<open>fftshift\<close> as the index selection
    \<^verbatim>\<open>take(y, concatenate((arange(p2, n), arange(p2))), axis)\<close> with
    \<^verbatim>\<open>p2 = (n+1)//2\<close> along each axis.
\<close>

subsection \<open>Interpreter, errors, arrays\<close>

datatype interpreter = Python2 | Python3

datatype error = ZeroDivisionError

type_synonym 'a array2 = "'a list list"

text \<open>The operator \<^verbatim>\<open>/\<close> on two Python ints (the divisor is not zero where it is used).\<close>

fun int_div :: "interpreter \<Rightarrow> int \<Rightarrow> int \<Rightarrow> real" where
  "int_div Python2 a b = real_of_int (a div b)"
| "int_div Python3 a b = real_of_int a / real_of_int b"

text \<open>\<^verbatim>\<open>np.arange(a, b)\<close> on ints.\<close>

definition arange :: "int \<Rightarrow> int \<Rightarrow> int list" where
  "arange a b = [a..b - 1]"

text \<open>\<^verbatim>\<open>np.zeros((r, c))\<close>.\<close>

definition zeros :: "nat \<Rightarrow> nat \<Rightarrow> complex array2" where
  "zeros r c = replicate r (replicate c 0)"

text \<open>
  Broadcasting a column \<^verbatim>\<open>x[:, np.newaxis]\<close> against a row \<^verbatim>\<open>y[np.newaxis, :]\<close> under
  an elementwise operation \<open>f\<close>: entry \<open>[a][b]\<close> is \<open>f (x[a]) (y[b])\<close>.
\<close>

definition broadcast :: "('a \<Rightarrow> 'b \<Rightarrow> 'c) \<Rightarrow> 'a list \<Rightarrow> 'b list \<Rightarrow> 'c array2" where
  "broadcast f xs ys = map (\<lambda>X. map (\<lambda>Y. f X Y) ys) xs"

text \<open>Elementwise operation on two arrays of the same shape.\<close>

definition elementwise :: "('a \<Rightarrow> 'b \<Rightarrow> 'c) \<Rightarrow> 'a array2 \<Rightarrow> 'b array2 \<Rightarrow> 'c array2" where
  "elementwise f A B = map2 (\<lambda>ra rb. map2 f ra rb) A B"

subsection \<open>The library functions\<close>

text \<open>
  \<^verbatim>\<open>fftpack.fft2\<close>: entry \<open>[p][q]\<close> of the transform of an \<open>N1 \<times> N2\<close> array \<open>A\<close> is
  the sum over \<open>m, n\<close> of \<open>A[m][n] * exp(-2 pi i (p m / N1 + q n / N2))\<close>.
\<close>

definition shape1 :: "'a array2 \<Rightarrow> nat" where
  "shape1 A = (case A of [] \<Rightarrow> 0 | r # _ \<Rightarrow> length r)"

definition fft2 :: "complex array2 \<Rightarrow> complex array2" where
  "fft2 A =
     (let N1 = length A; N2 = shape1 A
      in map (\<lambda>p. map (\<lambda>q.
           (\<Sum>m<N1. \<Sum>n<N2. A ! m ! n *
              exp (- (2 * of_real pi * \<i>) *
                   of_real (real p * real m / real N1 + real q * real n / real N2))))
           [0..<N2]) [0..<N1])"

text \<open>
  \<^verbatim>\<open>fftpack.fftshift\<close>: along an axis of length \<open>n\<close> the entries are selected by the
  index list \<open>[p2, ..., n-1, 0, ..., p2-1]\<close> with \<open>p2 = (n+1)//2\<close>; with no \<open>axes\<close>
  argument this is done along axis 0 and then along axis 1.
\<close>

definition take_idx :: "'a list \<Rightarrow> nat list \<Rightarrow> 'a list" where
  "take_idx xs idx = map (\<lambda>j. xs ! j) idx"

definition shift_list :: "nat \<Rightarrow> nat list" where
  "shift_list n = (let p2 = (n + 1) div 2 in [p2..<n] @ [0..<p2])"

definition fftshift :: "'a array2 \<Rightarrow> 'a array2" where
  "fftshift A =
     (let y0 = take_idx A (shift_list (length A));
          l1 = shift_list (shape1 A)
      in map (\<lambda>row. take_idx row l1) y0)"

subsection \<open>The function \<open>pindr\<close>\<close>

text \<open>
  One pass of the loop body for pinhole \<open>i\<close>:
  \<^verbatim>\<open>
      t = i*2.0*np.pi/nholes
      xi = R*np.cos(t)
      yi = R*np.sin(t)
      ri = np.sqrt((X-xi)**2 + (Y-yi)**2 + d**2)
      M = M + (-1j/lam*np.exp(1j*k*ri)/ri)
  \<close>
\<close>

definition kernel :: "real \<Rightarrow> real \<Rightarrow> real \<Rightarrow> complex" where
  "kernel lam k r = - \<i> / of_real lam * exp (\<i> * of_real k * of_real r) / of_real r"

definition hole_step ::
  "real \<Rightarrow> nat \<Rightarrow> real \<Rightarrow> real \<Rightarrow> real \<Rightarrow> real list \<Rightarrow> real list \<Rightarrow>
   complex array2 \<Rightarrow> nat \<Rightarrow> complex array2" where
  "hole_step k nholes R d lam x y M i =
     (let t = real i * 2 * pi / real nholes;
          xi = R * cos t;
          yi = R * sin t;
          ri = broadcast (\<lambda>X Y. sqrt ((X - xi)\<^sup>2 + (Y - yi)\<^sup>2 + d\<^sup>2)) x y
      in elementwise (+) M (map (map (kernel lam k)) ri))"

text \<open>The two coordinate vectors \<^verbatim>\<open>x = I - n / 2\<close> and \<^verbatim>\<open>y = n / 2 - I\<close>.\<close>

definition grid_x :: "interpreter \<Rightarrow> nat \<Rightarrow> real list" where
  "grid_x py npx =
     (let n = int npx + 1; I = arange 1 n
      in map (\<lambda>i. real_of_int i - int_div py n 2) I)"

definition grid_y :: "interpreter \<Rightarrow> nat \<Rightarrow> real list" where
  "grid_y py npx =
     (let n = int npx + 1; I = arange 1 n
      in map (\<lambda>i. int_div py n 2 - real_of_int i) I)"

text \<open>
  The whole function. The arguments are, in the order of the source,
  \<open>k u v npx nholes R d\<close>; the loop \<^verbatim>\<open>for i in range(nholes)\<close> is a fold over
  \<open>[0..<nholes]\<close> that threads the mask \<open>M\<close>.
\<close>

definition pindr ::
  "interpreter \<Rightarrow> real \<Rightarrow> real \<Rightarrow> real \<Rightarrow> nat \<Rightarrow> nat \<Rightarrow> real \<Rightarrow> real \<Rightarrow>
   error + real array2" where
  "pindr py k u v npx nholes R d =
     (let n = int npx + 1;
          x = grid_x py npx;
          y = grid_y py npx
      in if k = 0 then Inl ZeroDivisionError
         else
           let lam = 2 * pi / k;
               M0 = zeros (nat (n - 1)) (nat (n - 1));
               M = foldl (hole_step k nholes R d lam x y) M0 [0..<nholes];
               xy = broadcast (\<lambda>X Y. exp (\<i> * of_real (u * X + v * Y))) x y;
               D1 = fft2 (elementwise (*) xy M);
               D2 = fftshift D1;
               abs_image = map (map cmod) D2
           in Inr abs_image)"

subsection \<open>Calling \<open>pindr\<close> with keyword arguments\<close>

text \<open>
  \<^verbatim>\<open>def pindr(k=350, u=1.0, v=1.0, npx = 600, nholes=8, R=2.0, d=0.1)\<close>: every
  parameter is optional; a parameter the call does not give takes the default of the
  signature. The callers in the file use this: \<^verbatim>\<open>pindr()\<close> and \<^verbatim>\<open>pindr(npx=100)\<close>.
\<close>

record params =
  p_k :: real
  p_u :: real
  p_v :: real
  p_npx :: nat
  p_nholes :: nat
  p_R :: real
  p_d :: real

record kwargs =
  kw_k :: "real option"
  kw_u :: "real option"
  kw_v :: "real option"
  kw_npx :: "nat option"
  kw_nholes :: "nat option"
  kw_R :: "real option"
  kw_d :: "real option"

definition no_kwargs :: kwargs where
  "no_kwargs = \<lparr>kw_k = None, kw_u = None, kw_v = None, kw_npx = None,
                 kw_nholes = None, kw_R = None, kw_d = None\<rparr>"

definition bind_args :: "kwargs \<Rightarrow> params" where
  "bind_args kw =
     \<lparr>p_k = (case kw_k kw of None \<Rightarrow> 350 | Some a \<Rightarrow> a),
      p_u = (case kw_u kw of None \<Rightarrow> 1 | Some a \<Rightarrow> a),
      p_v = (case kw_v kw of None \<Rightarrow> 1 | Some a \<Rightarrow> a),
      p_npx = (case kw_npx kw of None \<Rightarrow> 600 | Some a \<Rightarrow> a),
      p_nholes = (case kw_nholes kw of None \<Rightarrow> 8 | Some a \<Rightarrow> a),
      p_R = (case kw_R kw of None \<Rightarrow> 2 | Some a \<Rightarrow> a),
      p_d = (case kw_d kw of None \<Rightarrow> 1 / 10 | Some a \<Rightarrow> a)\<rparr>"

definition pindr_call :: "interpreter \<Rightarrow> kwargs \<Rightarrow> error + real array2" where
  "pindr_call py kw =
     (let a = bind_args kw
      in pindr py (p_k a) (p_u a) (p_v a) (p_npx a) (p_nholes a) (p_R a) (p_d a))"

subsection \<open>Rectangular arrays\<close>

text \<open>An array has shape \<open>r \<times> c\<close>: \<open>r\<close> rows, each of length \<open>c\<close>.\<close>

definition has_shape :: "nat \<Rightarrow> nat \<Rightarrow> 'a array2 \<Rightarrow> bool" where
  "has_shape r c A \<longleftrightarrow> length A = r \<and> (\<forall>row \<in> set A. length row = c)"

subsection \<open>The arrays of \<open>pindr\<close>, entry by entry\<close>

text \<open>
  What the entries of the intermediate arrays are, as functions of the indices: the
  distance array \<open>ri\<close> of pinhole \<open>i\<close> at the point \<open>(X, Y)\<close>, the mask \<open>M\<close>
  after \<open>j\<close> passes of the loop, the product \<open>xy*M\<close> at the index pair \<open>(m, n)\<close>,
  and the transform of an \<open>N \<times> N\<close> array at the bin \<open>(p, q)\<close>.
\<close>

definition hole_r :: "nat \<Rightarrow> real \<Rightarrow> real \<Rightarrow> nat \<Rightarrow> real \<Rightarrow> real \<Rightarrow> real" where
  "hole_r nholes R d i X Y =
     sqrt ((X - R * cos (real i * 2 * pi / real nholes))\<^sup>2 +
           (Y - R * sin (real i * 2 * pi / real nholes))\<^sup>2 + d\<^sup>2)"

definition mask_entry :: "real \<Rightarrow> nat \<Rightarrow> real \<Rightarrow> real \<Rightarrow> nat \<Rightarrow> real \<Rightarrow> real \<Rightarrow> complex" where
  "mask_entry k nholes R d j X Y = (\<Sum>i<j. kernel (2 * pi / k) k (hole_r nholes R d i X Y))"

definition field_entry ::
  "interpreter \<Rightarrow> real \<Rightarrow> real \<Rightarrow> real \<Rightarrow> nat \<Rightarrow> nat \<Rightarrow> real \<Rightarrow> real \<Rightarrow> nat \<Rightarrow> nat \<Rightarrow> complex" where
  "field_entry py k u v npx nholes R d m n =
     (let X = grid_x py npx ! m; Y = grid_y py npx ! n
      in exp (\<i> * of_real (u * X + v * Y)) * mask_entry k nholes R d nholes X Y)"

definition dft_entry :: "(nat \<Rightarrow> nat \<Rightarrow> complex) \<Rightarrow> nat \<Rightarrow> nat \<Rightarrow> nat \<Rightarrow> complex" where
  "dft_entry F N p q =
     (\<Sum>m<N. \<Sum>n<N. F m n *
        exp (- (2 * of_real pi * \<i>) *
             of_real (real p * real m / real N + real q * real n / real N)))"

subsection \<open>The reference definition of the specification\<close>

text \<open>
  The specification defines the result in its own words; the definitions below follow
  them and are compared with \<open>pindr\<close> afterwards. The grid points \<open>xs\<close>, \<open>ys\<close> are
  arguments: the reference says what is computed at every grid point, whatever the grid.

  Wavelength \<open>lambda = 2 pi / k\<close>.
\<close>

definition spec_wavelength :: "real \<Rightarrow> real" where
  "spec_wavelength k = 2 * pi / k"

text \<open>The kernel \<open>(-i/lambda) * exp(i k r) / r\<close>.\<close>

definition spec_kernel :: "real \<Rightarrow> real \<Rightarrow> complex" where
  "spec_kernel k r =
     (- \<i> / of_real (spec_wavelength k)) * exp (\<i> * of_real (k * r)) / of_real r"

text \<open>
  The sum over the sources \<open>i = 0..nholes-1\<close>, source \<open>i\<close> at angle \<open>i * 2 pi / nholes\<close>
  and position \<open>(R cos t, R sin t)\<close>, of the kernel at
  \<open>r = sqrt((X - xi)^2 + (Y - yi)^2 + d^2)\<close>.
\<close>

definition spec_mask :: "real \<Rightarrow> nat \<Rightarrow> real \<Rightarrow> real \<Rightarrow> real \<Rightarrow> real \<Rightarrow> complex" where
  "spec_mask k nholes R d X Y =
     (\<Sum>i = 0..<nholes.
        let t = real i * (2 * pi) / real nholes;
            xi = R * cos t;
            yi = R * sin t;
            r = sqrt ((X - xi)\<^sup>2 + (Y - yi)\<^sup>2 + d\<^sup>2)
        in spec_kernel k r)"

text \<open>The shift phase \<open>exp(i (u X + v Y))\<close> and the elementwise product with the mask.\<close>

definition spec_shift_phase :: "real \<Rightarrow> real \<Rightarrow> real \<Rightarrow> real \<Rightarrow> complex" where
  "spec_shift_phase u v X Y = exp (\<i> * of_real (u * X + v * Y))"

definition spec_field ::
  "real \<Rightarrow> real \<Rightarrow> real \<Rightarrow> nat \<Rightarrow> real \<Rightarrow> real \<Rightarrow> real list \<Rightarrow> real list \<Rightarrow> complex array2" where
  "spec_field k u v nholes R d xs ys =
     map (\<lambda>X. map (\<lambda>Y. spec_shift_phase u v X Y * spec_mask k nholes R d X Y) ys) xs"

text \<open>The two-dimensional discrete Fourier transform of an \<open>N \<times> N\<close> array.\<close>

definition spec_dft2 :: "complex array2 \<Rightarrow> complex array2" where
  "spec_dft2 A =
     (let N = length A
      in map (\<lambda>p. map (\<lambda>q.
           (\<Sum>m = 0..<N. \<Sum>n = 0..<N. A ! m ! n *
              exp (- 2 * of_real pi * \<i> *
                   of_real ((real p * real m + real q * real n) / real N))))
           [0..<N]) [0..<N])"

text \<open>
  The FFT-shift: along an axis of length \<open>N\<close>, each frequency bin \<open>k\<close> is relocated to
  position \<open>(k + N/2) mod N\<close> (\<open>N/2\<close> rounded down); this is done along each axis.
\<close>

definition spec_relocate :: "'a list \<Rightarrow> 'a list" where
  "spec_relocate xs =
     (let N = length xs
      in foldl (\<lambda>ys k. ys[(k + N div 2) mod N := xs ! k]) xs [0..<N])"

definition spec_fftshift :: "'a array2 \<Rightarrow> 'a array2" where
  "spec_fftshift A = spec_relocate (map spec_relocate A)"

text \<open>The reference result: the elementwise magnitude of the shifted transform.\<close>

definition spec_pindr ::
  "real \<Rightarrow> real \<Rightarrow> real \<Rightarrow> nat \<Rightarrow> real \<Rightarrow> real \<Rightarrow> real list \<Rightarrow> real list \<Rightarrow> real array2" where
  "spec_pindr k u v nholes R d xs ys =
     map (map cmod) (spec_fftshift (spec_dft2 (spec_field k u v nholes R d xs ys)))"

subsection \<open>Roots of unity\<close>

text \<open>The factor \<open>exp(-2 pi i j / N)\<close> of the discrete Fourier transform, for an integer \<open>j\<close>.\<close>

definition twiddle :: "nat \<Rightarrow> int \<Rightarrow> complex" where
  "twiddle N j = cis (- (2 * pi * real_of_int j / real N))"

section \<open>Shapes and entries of the arrays\<close>

lemma length_arange [simp]: "length (arange a b) = nat (b - a)"
  by (simp add: arange_def)

lemma nth_arange [simp]: "j < nat (b - a) \<Longrightarrow> arange a b ! j = a + int j"
  by (simp add: arange_def)

lemma length_grid_x [simp]: "length (grid_x py npx) = npx"
  by (simp add: grid_x_def Let_def)

lemma length_grid_y [simp]: "length (grid_y py npx) = npx"
  by (simp add: grid_y_def Let_def)

lemma nth_grid_x: "j < npx \<Longrightarrow> grid_x py npx ! j = real j + 1 - int_div py (int npx + 1) 2"
  by (simp add: grid_x_def Let_def)

lemma nth_grid_y: "j < npx \<Longrightarrow> grid_y py npx ! j = int_div py (int npx + 1) 2 - (real j + 1)"
  by (simp add: grid_y_def Let_def)

lemma has_shape_nth: "has_shape r c A \<Longrightarrow> a < r \<Longrightarrow> length (A ! a) = c"
  by (simp add: has_shape_def)

lemma has_shape_shape1: "has_shape r c A \<Longrightarrow> 0 < r \<Longrightarrow> shape1 A = c"
  by (cases A) (auto simp: has_shape_def shape1_def)

lemma has_shape_zeros: "has_shape r c (zeros r c)"
  by (simp add: has_shape_def zeros_def)

lemma nth_zeros: "a < r \<Longrightarrow> b < c \<Longrightarrow> zeros r c ! a ! b = 0"
  by (simp add: zeros_def)

lemma has_shape_broadcast: "has_shape (length xs) (length ys) (broadcast f xs ys)"
  by (auto simp: has_shape_def broadcast_def)

lemma nth_broadcast:
  "a < length xs \<Longrightarrow> b < length ys \<Longrightarrow> broadcast f xs ys ! a ! b = f (xs ! a) (ys ! b)"
  by (simp add: broadcast_def)

lemma has_shape_elementwise:
  "has_shape r c A \<Longrightarrow> has_shape r c B \<Longrightarrow> has_shape r c (elementwise f A B)"
  by (auto simp: has_shape_def elementwise_def set_zip)

lemma nth_elementwise:
  "has_shape r c A \<Longrightarrow> has_shape r c B \<Longrightarrow> a < r \<Longrightarrow> b < c \<Longrightarrow>
   elementwise f A B ! a ! b = f (A ! a ! b) (B ! a ! b)"
  by (simp add: has_shape_def elementwise_def)

lemma has_shape_map_map: "has_shape r c A \<Longrightarrow> has_shape r c (map (map f) A)"
  by (auto simp: has_shape_def)

lemma nth_map_map:
  "has_shape r c A \<Longrightarrow> a < r \<Longrightarrow> b < c \<Longrightarrow> map (map f) A ! a ! b = f (A ! a ! b)"
  by (simp add: has_shape_def)

lemma has_shape_fft2: "has_shape r c A \<Longrightarrow> 0 < r \<Longrightarrow> has_shape r c (fft2 A)"
  by (auto simp: fft2_def Let_def has_shape_shape1) (auto simp: has_shape_def)

lemma nth_fft2:
  "has_shape r c A \<Longrightarrow> p < r \<Longrightarrow> q < c \<Longrightarrow>
   fft2 A ! p ! q =
     (\<Sum>m<r. \<Sum>n<c. A ! m ! n *
        exp (- (2 * of_real pi * \<i>) *
             of_real (real p * real m / real r + real q * real n / real c)))"
proof -
  assume s: "has_shape r c A" and p: "p < r" and q: "q < c"
  from s p have "shape1 A = c" by (intro has_shape_shape1) auto
  moreover from s have "length A = r" by (simp add: has_shape_def)
  ultimately show ?thesis using p q by (simp add: fft2_def Let_def)
qed

lemma length_shift_list [simp]: "length (shift_list n) = n"
  by (simp add: shift_list_def Let_def)

lemma nth_shift_list: "j < n \<Longrightarrow> shift_list n ! j = (j + (n + 1) div 2) mod n"
proof -
  assume j: "j < n"
  let ?p2 = "(n + 1) div 2"
  have p2: "?p2 \<le> n" using j by simp
  show ?thesis
  proof (cases "j < n - ?p2")
    case True
    then have "shift_list n ! j = ?p2 + j"
      by (simp add: shift_list_def Let_def nth_append)
    with True show ?thesis by (simp add: add.commute)
  next
    case False
    then have "shift_list n ! j = j - (n - ?p2)"
      using j by (simp add: shift_list_def Let_def nth_append)
    moreover have ge: "n \<le> j + ?p2" using False by arith
    moreover have "j + ?p2 - n < n" using j p2 by arith
    then have "(j + ?p2) mod n = j + ?p2 - n"
      using ge by (simp add: le_mod_geq)
    ultimately show ?thesis by arith
  qed
qed

lemma shift_list_less: "j < n \<Longrightarrow> shift_list n ! j < n"
  by (simp add: nth_shift_list)

lemma has_shape_fftshift: "has_shape r c A \<Longrightarrow> 0 < r \<Longrightarrow> has_shape r c (fftshift A)"
  by (auto simp: fftshift_def Let_def has_shape_shape1 take_idx_def) (auto simp: has_shape_def)

lemma nth_fftshift:
  "has_shape r c A \<Longrightarrow> a < r \<Longrightarrow> b < c \<Longrightarrow>
   fftshift A ! a ! b = A ! (shift_list r ! a) ! (shift_list c ! b)"
proof -
  assume s: "has_shape r c A" and a: "a < r" and b: "b < c"
  from s a have "shape1 A = c" by (intro has_shape_shape1) auto
  moreover from s have "length A = r" by (simp add: has_shape_def)
  ultimately show ?thesis using a b by (simp add: fftshift_def Let_def take_idx_def)
qed

section \<open>The loop and the result, entry by entry\<close>

lemma hole_step_shape:
  "has_shape (length x) (length y) M \<Longrightarrow>
   has_shape (length x) (length y) (hole_step k nh R d lam x y M i)"
  by (simp add: hole_step_def Let_def has_shape_elementwise has_shape_map_map
      has_shape_broadcast)

lemma hole_step_nth:
  assumes "has_shape (length x) (length y) M" and "a < length x" and "b < length y"
  shows "hole_step k nh R d lam x y M i ! a ! b =
         M ! a ! b + kernel lam k (hole_r nh R d i (x ! a) (y ! b))"
proof -
  let ?ri = "broadcast (\<lambda>X Y. sqrt ((X - R * cos (real i * 2 * pi / real nh))\<^sup>2 +
                (Y - R * sin (real i * 2 * pi / real nh))\<^sup>2 + d\<^sup>2)) x y"
  have s: "has_shape (length x) (length y) (map (map (kernel lam k)) ?ri)"
    by (intro has_shape_map_map has_shape_broadcast)
  have "hole_step k nh R d lam x y M i ! a ! b =
        M ! a ! b + map (map (kernel lam k)) ?ri ! a ! b"
    using assms s by (simp add: hole_step_def Let_def nth_elementwise)
  also have "map (map (kernel lam k)) ?ri ! a ! b = kernel lam k (?ri ! a ! b)"
    using assms by (intro nth_map_map [OF has_shape_broadcast])
  also have "?ri ! a ! b = hole_r nh R d i (x ! a) (y ! b)"
    using assms by (simp add: nth_broadcast hole_r_def)
  finally show ?thesis .
qed

lemma mask_loop_shape:
  "has_shape (length x) (length y)
     (foldl (hole_step k nh R d lam x y) (zeros (length x) (length y)) [0..<j])"
  by (induction j) (simp_all add: has_shape_zeros hole_step_shape)

lemma mask_loop_nth:
  assumes "a < length x" and "b < length y"
  shows "foldl (hole_step k nh R d lam x y) (zeros (length x) (length y)) [0..<j] ! a ! b =
         (\<Sum>i<j. kernel lam k (hole_r nh R d i (x ! a) (y ! b)))"
proof (induction j)
  case 0
  show ?case using assms by (simp add: nth_zeros)
next
  case (Suc j)
  show ?case using assms Suc
    by (simp add: hole_step_nth [OF mask_loop_shape])
qed

lemma pindr_returns: "k \<noteq> 0 \<Longrightarrow> \<exists>g. pindr py k u v npx nholes R d = Inr g"
  by (simp add: pindr_def Let_def)

lemma pindr_raises: "pindr py 0 u v npx nholes R d = Inl ZeroDivisionError"
  by (simp add: pindr_def Let_def)

lemma pindr_Inr_nonzero: "pindr py k u v npx nholes R d = Inr g \<Longrightarrow> k \<noteq> 0"
  by (auto simp: pindr_def Let_def split: if_splits)

lemma pindr_shape_aux:
  assumes "pindr py k u v npx nholes R d = Inr g" and "0 < npx"
  shows "has_shape npx npx g"
proof -
  let ?x = "grid_x py npx" and ?y = "grid_y py npx"
  let ?M = "foldl (hole_step k nholes R d (2 * pi / k) ?x ?y) (zeros npx npx) [0..<nholes]"
  let ?xy = "broadcast (\<lambda>X Y. exp (\<i> * of_real (u * X + v * Y))) ?x ?y"
  have M: "has_shape npx npx ?M"
    using mask_loop_shape [of ?x ?y k nholes R d "2 * pi / k" nholes] by simp
  have xy: "has_shape npx npx ?xy"
    using has_shape_broadcast [where xs = ?x and ys = ?y] by simp
  have "has_shape npx npx (map (map cmod) (fftshift (fft2 (elementwise (*) ?xy ?M))))"
    using assms(2)
    by (intro has_shape_map_map has_shape_fftshift has_shape_fft2 has_shape_elementwise M xy)
  moreover have "g = map (map cmod) (fftshift (fft2 (elementwise (*) ?xy ?M)))"
    using assms(1) by (simp add: pindr_def Let_def split: if_splits)
  ultimately show ?thesis by simp
qed

lemma pindr_nth:
  assumes "pindr py k u v npx nholes R d = Inr g" and "a < npx" and "b < npx"
  shows "g ! a ! b =
         cmod (dft_entry (field_entry py k u v npx nholes R d) npx
                 (shift_list npx ! a) (shift_list npx ! b))"
proof -
  let ?x = "grid_x py npx" and ?y = "grid_y py npx"
  let ?M = "foldl (hole_step k nholes R d (2 * pi / k) ?x ?y) (zeros npx npx) [0..<nholes]"
  let ?xy = "broadcast (\<lambda>X Y. exp (\<i> * of_real (u * X + v * Y))) ?x ?y"
  let ?F = "elementwise (*) ?xy ?M"
  have pos: "0 < npx" using assms(2) by simp
  have M: "has_shape npx npx ?M"
    using mask_loop_shape [of ?x ?y k nholes R d "2 * pi / k" nholes] by simp
  have xy: "has_shape npx npx ?xy"
    using has_shape_broadcast [where xs = ?x and ys = ?y] by simp
  have F: "has_shape npx npx ?F"
    by (intro has_shape_elementwise M xy)
  have Fnth: "?F ! m ! n = field_entry py k u v npx nholes R d m n"
    if "m < npx" "n < npx" for m n
  proof -
    have "?F ! m ! n = ?xy ! m ! n * ?M ! m ! n"
      using that by (intro nth_elementwise [OF xy M])
    also have "?xy ! m ! n = exp (\<i> * of_real (u * (?x ! m) + v * (?y ! n)))"
      using that by (simp add: nth_broadcast)
    also have "?M ! m ! n = mask_entry k nholes R d nholes (?x ! m) (?y ! n)"
      using that mask_loop_nth [of m ?x n ?y k nholes R d "2 * pi / k" nholes]
      by (simp add: mask_entry_def)
    finally show ?thesis by (simp add: field_entry_def Let_def)
  qed
  have g: "g = map (map cmod) (fftshift (fft2 ?F))"
    using assms(1) by (simp add: pindr_def Let_def split: if_splits)
  have sa: "shift_list npx ! a < npx" and sb: "shift_list npx ! b < npx"
    using assms by (simp_all add: shift_list_less)
  have "g ! a ! b = cmod (fftshift (fft2 ?F) ! a ! b)"
    unfolding g using assms(2,3) pos
    by (intro nth_map_map [OF has_shape_fftshift [OF has_shape_fft2 [OF F]]])
  also have "fftshift (fft2 ?F) ! a ! b = fft2 ?F ! (shift_list npx ! a) ! (shift_list npx ! b)"
    using assms(2,3) pos by (intro nth_fftshift [OF has_shape_fft2 [OF F]])
  also have "\<dots> = dft_entry (\<lambda>m n. ?F ! m ! n) npx (shift_list npx ! a) (shift_list npx ! b)"
    unfolding dft_entry_def by (rule nth_fft2 [OF F sa sb])
  also have "\<dots> = dft_entry (field_entry py k u v npx nholes R d) npx
                     (shift_list npx ! a) (shift_list npx ! b)"
    unfolding dft_entry_def
    by (intro sum.cong refl arg_cong2 [where f = "(*)"] Fnth) simp_all
  finally show ?thesis .
qed

section \<open>The coordinate grid\<close>

text \<open>
  Claim C2, as amended. For every \<open>npx \<ge> 1\<close> and pixel index \<open>i\<close> in \<open>1..npx\<close>,
  the grid built by \<open>pindr\<close> has the x-coordinate \<open>i - h\<close> and the y-coordinate
  \<open>h - i\<close>, the negated x-offset, where \<open>h\<close> is the value of \<^verbatim>\<open>n / 2\<close> for
  \<open>n = npx + 1\<close>: the floor of \<open>(npx+1)/2\<close> under Python 2 and \<open>(npx+1)/2\<close> under
  true division. When \<open>npx\<close> is odd (or the division is true division) the x-coordinate
  is \<open>i - (npx+1)/2\<close> and the offsets are symmetric: pixel \<open>npx + 1 - i\<close> has the
  negated offset of pixel \<open>i\<close>.
\<close>
theorem pindr_grid_coordinates:
  assumes "1 \<le> i" and "i \<le> npx"
  shows "grid_x py npx ! (i - 1) = real i - int_div py (int npx + 1) 2
       \<and> grid_y py npx ! (i - 1) = int_div py (int npx + 1) 2 - real i
       \<and> grid_y py npx ! (i - 1) = - (grid_x py npx ! (i - 1))
       \<and> int_div Python2 (int npx + 1) 2 = real ((npx + 1) div 2)
       \<and> int_div Python3 (int npx + 1) 2 = (real npx + 1) / 2
       \<and> (odd npx \<or> py = Python3 \<longrightarrow>
            grid_x py npx ! (i - 1) = real i - (real npx + 1) / 2
          \<and> grid_x py npx ! (npx - i) = - (grid_x py npx ! (i - 1)))"
proof -
  have j: "i - 1 < npx" "npx - i < npx" using assms by simp_all
  have ri: "real (i - 1) + 1 = real i" using assms by simp
  have rn: "real (npx - i) + 1 = real npx + 1 - real i" using assms by simp
  have x: "grid_x py npx ! (i - 1) = real i - int_div py (int npx + 1) 2"
    using nth_grid_x [OF j(1), of py] ri by simp
  have y: "grid_y py npx ! (i - 1) = int_div py (int npx + 1) 2 - real i"
    using nth_grid_y [OF j(1), of py] ri by simp
  have x': "grid_x py npx ! (npx - i) = real npx + 1 - real i - int_div py (int npx + 1) 2"
    using nth_grid_x [OF j(2), of py] rn by simp
  have p2: "int_div Python2 (int npx + 1) 2 = real ((npx + 1) div 2)"
  proof -
    have "(int npx + 1) div 2 = int ((npx + 1) div 2)" by (simp add: zdiv_int)
    then show ?thesis by simp
  qed
  have p3: "int_div Python3 (int npx + 1) 2 = (real npx + 1) / 2" by simp
  have h: "int_div py (int npx + 1) 2 = (real npx + 1) / 2" if "odd npx \<or> py = Python3"
  proof (cases py)
    case Python3
    then show ?thesis by simp
  next
    case Python2
    with that have "odd npx" by simp
    then obtain m where m: "npx = 2 * m + 1" by (auto elim: oddE)
    have "(npx + 1) div 2 = m + 1" using m by simp
    then have "real ((npx + 1) div 2) = (real npx + 1) / 2" using m by simp
    with p2 Python2 show ?thesis by simp
  qed
  show ?thesis using x y x' p2 p3 h by auto
qed

text \<open>The theorem at \<open>npx = 3\<close>, pixel \<open>1\<close>: the x-coordinates are \<open>-1, 0, 1\<close>.\<close>
theorem pindr_grid_coordinates_witness:
  "(1::nat) \<le> 1 \<and> (1::nat) \<le> 3 \<and> odd (3::nat)
   \<and> grid_x Python2 3 ! 0 = -1 \<and> grid_y Python2 3 ! 0 = 1 \<and> grid_x Python2 3 ! 2 = 1"
  using pindr_grid_coordinates [of 1 3 Python2] by simp

text \<open>
  Claim C2 as stated fails under Python 2 for even \<open>npx\<close>. At \<open>npx = 2\<close>:
  \<open>n = 3\<close>, \<^verbatim>\<open>n / 2\<close> is \<open>1\<close>, \<open>I = [1, 2]\<close>, so \<open>x = [0, 1]\<close> and
  \<open>y = [0, -1]\<close>, where the claim has \<open>x = [-1/2, 1/2]\<close>.
\<close>
theorem pindr_grid_not_centred_counterexample:
  "grid_x Python2 2 ! (1 - 1) \<noteq> real 1 - (real 2 + 1) / 2
   \<and> grid_x Python2 2 = [0, 1] \<and> grid_y Python2 2 = [0, - 1]"
  by (simp add: grid_x_def grid_y_def Let_def arange_def upto.simps)

section \<open>The default arguments\<close>

text \<open>
  Claim C3, as amended. The default parameter values of \<open>pindr\<close> are \<open>k = 350\<close>,
  \<open>u = 1.0\<close>, \<open>v = 1.0\<close>, \<open>npx = 600\<close>, \<open>nholes = 8\<close>, \<open>R = 2.0\<close>,
  \<open>d = 0.1\<close>: a call with no argument is the call with these values.
\<close>
theorem pindr_defaults:
  "bind_args no_kwargs =
     \<lparr>p_k = 350, p_u = 1, p_v = 1, p_npx = 600, p_nholes = 8, p_R = 2, p_d = 1 / 10\<rparr>
   \<and> pindr_call py no_kwargs = pindr py 350 1 1 600 8 2 (1 / 10)"
  by (simp add: bind_args_def no_kwargs_def pindr_call_def)

text \<open>
  Claim C3 as stated has \<open>u = 0\<close> and \<open>v = 0\<close>; the signature has \<open>u=1.0, v=1.0\<close>.
\<close>
theorem pindr_defaults_shift_counterexample:
  "bind_args no_kwargs \<noteq>
     \<lparr>p_k = 350, p_u = 0, p_v = 0, p_npx = 600, p_nholes = 8, p_R = 2, p_d = 1 / 10\<rparr>"
  by (simp add: bind_args_def no_kwargs_def)

section \<open>Shape, sign and errors of the result\<close>

text \<open>
  Claim C5. For every positive \<open>npx\<close> and any values of the other parameters, the grid
  returned by \<open>pindr\<close> has \<open>npx\<close> rows of \<open>npx\<close> entries each; a grid is returned
  whenever \<open>k\<close> is not zero.
\<close>
theorem pindr_output_shape:
  assumes "0 < npx"
  shows "(k \<noteq> 0 \<longrightarrow> (\<exists>g. pindr py k u v npx nholes R d = Inr g))
       \<and> (\<forall>g. pindr py k u v npx nholes R d = Inr g \<longrightarrow>
              length g = npx \<and> (\<forall>row \<in> set g. length row = npx))"
  using pindr_returns [of k py u v npx nholes R d] pindr_shape_aux [OF _ assms]
  by (auto simp: has_shape_def)

text \<open>The theorem at the preview size \<open>npx = 100\<close> with the other defaults.\<close>
theorem pindr_output_shape_witness:
  "(0::nat) < 100 \<and> (350::real) \<noteq> 0
   \<and> (\<exists>g. pindr Python2 350 1 1 100 8 2 (1 / 10) = Inr g
          \<and> length g = 100 \<and> (\<forall>row \<in> set g. length row = 100))"
  using pindr_output_shape [of 100 350 Python2 1 1 8 2 "1 / 10"] by auto






text \<open>
  Claim C9, as amended. For \<open>nholes = 0\<close>, every \<open>npx \<ge> 1\<close> and every \<open>k\<close> other
  than zero, \<open>pindr\<close> returns the \<open>npx \<times> npx\<close> grid in which every entry is 0: the
  loop runs zero times and the mask stays zero.
\<close>
theorem pindr_no_holes:
  assumes "1 \<le> npx" and "k \<noteq> 0"
  shows "pindr py k u v npx 0 R d = Inr (replicate npx (replicate npx 0))"
proof -
  obtain g where g: "pindr py k u v npx 0 R d = Inr g"
    using pindr_returns [OF assms(2)] by blast
  have s: "has_shape npx npx g" using pindr_shape_aux [OF g] assms(1) by simp
  have "g ! a ! b = 0" if "a < npx" "b < npx" for a b
    using pindr_nth [OF g that]
    by (simp add: dft_entry_def field_entry_def mask_entry_def Let_def)
  then have "g ! a = replicate npx 0" if "a < npx" for a
    using that s by (intro nth_equalityI) (simp_all add: has_shape_def)
  then have "g = replicate npx (replicate npx 0)"
    using s by (intro nth_equalityI) (simp_all add: has_shape_def)
  with g show ?thesis by simp
qed

text \<open>The theorem at \<open>npx = 2\<close>, \<open>k = 350\<close>.\<close>
theorem pindr_no_holes_witness:
  "(1::nat) \<le> 2 \<and> (350::real) \<noteq> 0
   \<and> pindr Python2 350 1 1 2 0 2 (1 / 10) = Inr [[0, 0], [0, 0]]"
  using pindr_no_holes [of 2 350 Python2 1 1 2 "1 / 10"]
  by (simp add: numeral_2_eq_2)

text \<open>
  Claim C9 as stated allows any finite \<open>k\<close>. At \<open>k = 0\<close>, \<open>nholes = 0\<close>,
  \<open>npx = 1\<close> the wavelength is computed before the loop and the division raises, so
  the zero grid is not returned.
\<close>
theorem pindr_no_holes_zero_k_counterexample:
  "pindr Python2 0 1 1 1 0 2 (1 / 10) \<noteq> Inr [[0]]"
  by (simp add: pindr_def Let_def)

section \<open>Periodicity in the shift parameters\<close>

lemma exp_i_cis: "exp (\<i> * of_real a) = cis a"
  by (simp add: cis_conv_exp)

lemma cis_two_pi_nat: "cis (2 * pi * (real m + 1)) = 1"
proof -
  have "real m + 1 = real (Suc m)" by simp
  then show ?thesis by (simp only: cis_multiple_2pi Ints_of_nat)
qed

lemma dft_entry_scale:
  assumes "\<And>m n. m < N \<Longrightarrow> n < N \<Longrightarrow> F' m n = c * F m n"
  shows "dft_entry F' N p q = c * dft_entry F N p q"
proof -
  have "dft_entry F' N p q =
        (\<Sum>m<N. \<Sum>n<N. c * (F m n *
           exp (- (2 * of_real pi * \<i>) *
             of_real (real p * real m / real N + real q * real n / real N))))"
    unfolding dft_entry_def
    by (intro sum.cong refl) (simp add: assms mult.assoc)
  also have "\<dots> = c * dft_entry F N p q"
    unfolding dft_entry_def by (simp add: sum_distrib_left)
  finally show ?thesis .
qed

lemma field_entry_shift_u:
  assumes "m < npx" and "n < npx"
  shows "field_entry py k (u + 2 * pi) v npx nholes R d m n =
         cis (- (2 * pi * int_div py (int npx + 1) 2)) * field_entry py k u v npx nholes R d m n"
proof -
  let ?h = "int_div py (int npx + 1) 2"
  let ?X = "grid_x py npx ! m" and ?Y = "grid_y py npx ! n"
  have X: "?X = real m + 1 - ?h" using assms by (simp add: nth_grid_x)
  have "(u + 2 * pi) * ?X + v * ?Y = 2 * pi * (real m + 1) + (- (2 * pi * ?h) + (u * ?X + v * ?Y))"
    unfolding X by (simp add: algebra_simps)
  then have "cis ((u + 2 * pi) * ?X + v * ?Y) = cis (- (2 * pi * ?h)) * cis (u * ?X + v * ?Y)"
    by (simp only: cis_mult [symmetric] cis_two_pi_nat mult_1)
  then show ?thesis
    by (simp only: field_entry_def Let_def exp_i_cis mult.assoc)
qed

lemma field_entry_shift_v:
  assumes "m < npx" and "n < npx"
  shows "field_entry py k u (v + 2 * pi) npx nholes R d m n =
         cis (2 * pi * int_div py (int npx + 1) 2) * field_entry py k u v npx nholes R d m n"
proof -
  let ?h = "int_div py (int npx + 1) 2"
  let ?X = "grid_x py npx ! m" and ?Y = "grid_y py npx ! n"
  have Y: "?Y = ?h - (real n + 1)" using assms by (simp add: nth_grid_y)
  have "u * ?X + (v + 2 * pi) * ?Y + 2 * pi * (real n + 1) = 2 * pi * ?h + (u * ?X + v * ?Y)"
    unfolding Y by (simp add: algebra_simps)
  then have "cis (u * ?X + (v + 2 * pi) * ?Y) * cis (2 * pi * (real n + 1)) =
             cis (2 * pi * ?h) * cis (u * ?X + v * ?Y)"
    by (simp only: cis_mult)
  then have "cis (u * ?X + (v + 2 * pi) * ?Y) = cis (2 * pi * ?h) * cis (u * ?X + v * ?Y)"
    by (simp only: cis_two_pi_nat mult_1_right)
  then show ?thesis
    by (simp only: field_entry_def Let_def exp_i_cis mult.assoc)
qed

lemma pindr_npx_zero: "pindr py k u v 0 nholes R d = Inr g \<Longrightarrow> g = []"
proof -
  assume g: "pindr py k u v 0 nholes R d = Inr g"
  let ?x = "grid_x py 0" and ?y = "grid_y py 0"
  have "has_shape 0 0 (foldl (hole_step k nholes R d (2 * pi / k) ?x ?y) (zeros 0 0) [0..<nholes])"
    using mask_loop_shape [of ?x ?y k nholes R d "2 * pi / k" nholes] by simp
  then have M: "foldl (hole_step k nholes R d (2 * pi / k) ?x ?y) (zeros 0 0) [0..<nholes] = []"
    by (simp add: has_shape_def)
  have x: "?x = []" "?y = []" by (simp_all add: grid_x_def grid_y_def Let_def arange_def)
  show ?thesis using g
    by (simp add: pindr_def Let_def M x elementwise_def fft2_def fftshift_def take_idx_def
        shift_list_def broadcast_def split: if_splits)
qed

lemma grid_eqI:
  assumes "has_shape r c A" and "has_shape r c B"
    and "\<And>a b. a < r \<Longrightarrow> b < c \<Longrightarrow> A ! a ! b = B ! a ! b"
  shows "A = B"
proof (rule nth_equalityI)
  show "length A = length B" using assms(1,2) by (simp add: has_shape_def)
next
  fix a assume a: "a < length A"
  then have ar: "a < r" using assms(1) by (simp add: has_shape_def)
  have la: "length (A ! a) = c" and lb: "length (B ! a) = c"
    using assms(1,2) ar by (simp_all add: has_shape_nth)
  show "A ! a = B ! a"
    using la lb assms(3) [OF ar] by (intro nth_equalityI) simp_all
qed

lemma pindr_eqI:
  assumes "\<And>p q. p < npx \<Longrightarrow> q < npx \<Longrightarrow>
             cmod (dft_entry (field_entry py k u v npx nholes R d) npx p q) =
             cmod (dft_entry (field_entry py k' u' v' npx nholes' R' d') npx p q)"
    and "k = 0 \<longleftrightarrow> k' = 0"
  shows "pindr py k u v npx nholes R d = pindr py k' u' v' npx nholes' R' d'"
proof (cases "k = 0")
  case True
  then show ?thesis using assms(2) by (simp add: pindr_raises)
next
  case False
  then obtain g where g: "pindr py k u v npx nholes R d = Inr g"
    using pindr_returns by blast
  from False assms(2) obtain g' where g': "pindr py k' u' v' npx nholes' R' d' = Inr g'"
    using pindr_returns by blast
  have "g = g'"
  proof (cases "npx = 0")
    case True
    then show ?thesis using g g' pindr_npx_zero by blast
  next
    case False
    then have pos: "0 < npx" by simp
    show ?thesis
    proof (rule grid_eqI [OF pindr_shape_aux [OF g pos] pindr_shape_aux [OF g' pos]])
      fix a b assume ab: "a < npx" "b < npx"
      then show "g ! a ! b = g' ! a ! b"
        by (simp add: pindr_nth [OF g ab] pindr_nth [OF g' ab] assms(1) shift_list_less)
    qed
  qed
  with g g' show ?thesis by simp
qed

text \<open>
  Claim C10. The output of \<open>pindr\<close> is periodic in the shift parameters with period
  \<open>2 pi\<close>: \<open>pindr(k, u + 2 pi, v, ...)\<close> equals \<open>pindr(k, u, v, ...)\<close>, and likewise
  for \<open>v + 2 pi\<close>, for every input and under both interpreters (in exact arithmetic).
  Along each axis the coordinates differ from one another by integers, so the added
  phase is the same unit factor at every grid point; under Python 2 the coordinates are
  integers and the factor is 1.
\<close>
theorem pindr_shift_periodic:
  "pindr py k (u + 2 * pi) v npx nholes R d = pindr py k u v npx nholes R d
   \<and> pindr py k u (v + 2 * pi) npx nholes R d = pindr py k u v npx nholes R d"
proof
  show "pindr py k (u + 2 * pi) v npx nholes R d = pindr py k u v npx nholes R d"
  proof (rule pindr_eqI)
    fix p q
    show "cmod (dft_entry (field_entry py k (u + 2 * pi) v npx nholes R d) npx p q) =
          cmod (dft_entry (field_entry py k u v npx nholes R d) npx p q)"
      by (simp add: dft_entry_scale [OF field_entry_shift_u] norm_mult)
  qed simp
  show "pindr py k u (v + 2 * pi) npx nholes R d = pindr py k u v npx nholes R d"
  proof (rule pindr_eqI)
    fix p q
    show "cmod (dft_entry (field_entry py k u (v + 2 * pi) npx nholes R d) npx p q) =
          cmod (dft_entry (field_entry py k u v npx nholes R d) npx p q)"
      by (simp add: dft_entry_scale [OF field_entry_shift_v] norm_mult)
  qed simp
qed

section \<open>The result against the reference definition\<close>

lemma relocate_then_select:
  assumes "k < (n::nat)"
  shows "((k + n div 2) mod n + (n + 1) div 2) mod n = k"
proof -
  have "((k + n div 2) mod n + (n + 1) div 2) mod n = (k + (n div 2 + (n + 1) div 2)) mod n"
    by (simp add: mod_add_left_eq add.assoc)
  also have "n div 2 + (n + 1) div 2 = n" by presburger
  finally show ?thesis using assms by simp
qed

lemma select_then_relocate:
  assumes "a < (n::nat)"
  shows "((a + (n + 1) div 2) mod n + n div 2) mod n = a"
proof -
  have "((a + (n + 1) div 2) mod n + n div 2) mod n = (a + ((n + 1) div 2 + n div 2)) mod n"
    by (simp add: mod_add_left_eq add.assoc)
  also have "(n + 1) div 2 + n div 2 = n" by presburger
  finally show ?thesis using assms by simp
qed

lemma length_foldl_update:
  "length (foldl (\<lambda>ys k. ys[f k := g k]) ys0 ks) = length ys0"
  by (induction ks arbitrary: ys0) simp_all

lemma nth_foldl_update:
  assumes "inj_on f (set ks)" and "k \<in> set ks" and "f k < length ys0"
  shows "foldl (\<lambda>ys k. ys[f k := g k]) ys0 ks ! f k = g k"
  using assms
proof (induction ks rule: rev_induct)
  case Nil
  then show ?case by simp
next
  case (snoc j ks)
  show ?case
  proof (cases "k = j")
    case True
    then show ?thesis using snoc.prems(3) by (simp add: length_foldl_update)
  next
    case False
    then have k: "k \<in> set ks" using snoc.prems(2) by simp
    have inj: "inj_on f (set ks)" using snoc.prems(1) by (simp add: inj_on_def)
    have "f k \<noteq> f j" using snoc.prems(1) k False by (auto simp: inj_on_def)
    then show ?thesis using snoc.IH [OF inj k snoc.prems(3)] by simp
  qed
qed

lemma length_spec_relocate [simp]: "length (spec_relocate xs) = length xs"
  by (simp add: spec_relocate_def Let_def length_foldl_update)

lemma nth_spec_relocate_bin:
  assumes "k < length xs"
  shows "spec_relocate xs ! ((k + length xs div 2) mod length xs) = xs ! k"
proof -
  let ?N = "length xs"
  let ?f = "\<lambda>k. (k + ?N div 2) mod ?N"
  have "inj_on ?f (set [0..<?N])"
    by (rule inj_on_inverseI [where g = "\<lambda>a. (a + (?N + 1) div 2) mod ?N"],
        rule relocate_then_select) simp
  moreover have "k \<in> set [0..<?N]" using assms by simp
  moreover have "0 < ?N" using assms by auto
  then have "?f k < length xs" by simp
  ultimately show ?thesis
    unfolding spec_relocate_def Let_def
    by (rule nth_foldl_update [where f = ?f and g = "\<lambda>k. xs ! k"])
qed

lemma nth_spec_relocate:
  assumes "a < length xs"
  shows "spec_relocate xs ! a = xs ! (shift_list (length xs) ! a)"
proof -
  let ?N = "length xs"
  let ?k = "(a + (?N + 1) div 2) mod ?N"
  have "0 < ?N" using assms by auto
  then have k: "?k < ?N" by simp
  have "spec_relocate xs ! ((?k + ?N div 2) mod ?N) = xs ! ?k"
    by (rule nth_spec_relocate_bin [OF k])
  moreover have "(?k + ?N div 2) mod ?N = a"
    by (rule select_then_relocate [OF assms])
  moreover have "shift_list ?N ! a = ?k"
    by (rule nth_shift_list [OF assms])
  ultimately show ?thesis by simp
qed

lemma set_spec_relocate: "set (spec_relocate xs) \<subseteq> set xs"
proof
  fix e assume "e \<in> set (spec_relocate xs)"
  then obtain a where a: "a < length xs" and e: "e = spec_relocate xs ! a"
    by (auto simp: in_set_conv_nth)
  have "shift_list (length xs) ! a < length xs" by (rule shift_list_less [OF a])
  then show "e \<in> set xs" using e a by (simp add: nth_spec_relocate)
qed

lemma has_shape_spec_fftshift:
  assumes "has_shape r c A"
  shows "has_shape r c (spec_fftshift A)"
proof -
  have "has_shape r c (map spec_relocate A)"
    using assms by (auto simp: has_shape_def)
  then show ?thesis
    using set_spec_relocate [of "map spec_relocate A"]
    by (auto simp: has_shape_def spec_fftshift_def)
qed

lemma nth_spec_fftshift:
  assumes "has_shape r c A" and "a < r" and "b < c"
  shows "spec_fftshift A ! a ! b = A ! (shift_list r ! a) ! (shift_list c ! b)"
proof -
  have r: "length A = r" using assms(1) by (simp add: has_shape_def)
  have sa: "shift_list r ! a < r" by (rule shift_list_less [OF assms(2)])
  have c: "length (A ! (shift_list r ! a)) = c" by (rule has_shape_nth [OF assms(1) sa])
  have "spec_fftshift A ! a = map spec_relocate A ! (shift_list r ! a)"
    using assms(2) r by (simp add: spec_fftshift_def nth_spec_relocate)
  also have "\<dots> = spec_relocate (A ! (shift_list r ! a))"
    using sa r by simp
  finally show ?thesis using assms(3) c by (simp add: nth_spec_relocate)
qed

lemma has_shape_spec_dft2: "length A = N \<Longrightarrow> has_shape N N (spec_dft2 A)"
  by (auto simp: has_shape_def spec_dft2_def Let_def)

lemma nth_spec_dft2:
  assumes "length A = N" and "p < N" and "q < N"
  shows "spec_dft2 A ! p ! q = dft_entry (\<lambda>m n. A ! m ! n) N p q"
proof -
  have "- 2 * of_real pi * \<i> * of_real ((real p * real m + real q * real n) / real N) =
        - (2 * of_real pi * \<i>) *
          (of_real (real p * real m / real N + real q * real n / real N) :: complex)" for m n
    by (simp add: add_divide_distrib)
  then show ?thesis
    using assms by (simp only: spec_dft2_def Let_def dft_entry_def atLeast0LessThan) simp
qed

lemma spec_kernel_eq: "spec_kernel k r = kernel (2 * pi / k) k r"
proof -
  have "\<i> * of_real (k * r) = \<i> * of_real k * (of_real r :: complex)" by simp
  then show ?thesis
    by (simp only: spec_kernel_def kernel_def spec_wavelength_def)
qed

lemma spec_mask_eq: "spec_mask k nholes R d X Y = mask_entry k nholes R d nholes X Y"
  by (simp add: spec_mask_def mask_entry_def hole_r_def Let_def spec_kernel_eq
      atLeast0LessThan mult.assoc)

lemma nth_spec_field:
  assumes "m < npx" and "n < npx"
  shows "spec_field k u v nholes R d (grid_x py npx) (grid_y py npx) ! m ! n =
         field_entry py k u v npx nholes R d m n"
  using assms
  by (simp add: spec_field_def field_entry_def Let_def spec_shift_phase_def spec_mask_eq)

text \<open>
  Claim C1. For every valid input (\<open>k > 0\<close>, \<open>npx \<ge> 1\<close>, \<open>nholes \<ge> 1\<close>,
  \<open>R \<ge> 0\<close>, any real \<open>d\<close>, \<open>u\<close>, \<open>v\<close>) \<open>pindr\<close> returns the grid of the
  reference definition on the grid points it builds: the kernel
  \<open>(-i/lambda) exp(i k r)/r\<close> with \<open>lambda = 2 pi / k\<close> summed over the sources
  \<open>i = 0..nholes-1\<close>, multiplied elementwise by the shift phase, transformed by the
  two-dimensional discrete Fourier transform, each frequency bin \<open>k\<close> relocated to
  position \<open>(k + N/2) mod N\<close> along each axis, and the elementwise magnitude taken.
\<close>
theorem pindr_refines_reference:
  assumes "0 < k" and "1 \<le> npx" and "1 \<le> nholes" and "0 \<le> R"
  shows "pindr py k u v npx nholes R d =
         Inr (spec_pindr k u v nholes R d (grid_x py npx) (grid_y py npx))"
proof -
  let ?F = "spec_field k u v nholes R d (grid_x py npx) (grid_y py npx)"
  obtain g where g: "pindr py k u v npx nholes R d = Inr g"
    using pindr_returns [of k] assms(1) by fastforce
  have pos: "0 < npx" using assms(2) by simp
  have lF: "length ?F = npx" by (simp add: spec_field_def)
  have D: "has_shape npx npx (spec_dft2 ?F)" by (rule has_shape_spec_dft2 [OF lF])
  have S: "has_shape npx npx (spec_fftshift (spec_dft2 ?F))"
    by (rule has_shape_spec_fftshift [OF D])
  have "g = spec_pindr k u v nholes R d (grid_x py npx) (grid_y py npx)"
  proof (rule grid_eqI [OF pindr_shape_aux [OF g pos]])
    show "has_shape npx npx (spec_pindr k u v nholes R d (grid_x py npx) (grid_y py npx))"
      unfolding spec_pindr_def by (rule has_shape_map_map [OF S])
  next
    fix a b assume ab: "a < npx" "b < npx"
    have sa: "shift_list npx ! a < npx" and sb: "shift_list npx ! b < npx"
      using ab by (simp_all add: shift_list_less)
    have "spec_pindr k u v nholes R d (grid_x py npx) (grid_y py npx) ! a ! b =
          cmod (spec_fftshift (spec_dft2 ?F) ! a ! b)"
      unfolding spec_pindr_def by (rule nth_map_map [OF S ab])
    also have "spec_fftshift (spec_dft2 ?F) ! a ! b =
               spec_dft2 ?F ! (shift_list npx ! a) ! (shift_list npx ! b)"
      by (rule nth_spec_fftshift [OF D ab])
    also have "\<dots> = dft_entry (\<lambda>m n. ?F ! m ! n) npx (shift_list npx ! a) (shift_list npx ! b)"
      by (rule nth_spec_dft2 [OF lF sa sb])
    also have "\<dots> = dft_entry (field_entry py k u v npx nholes R d) npx
                       (shift_list npx ! a) (shift_list npx ! b)"
      unfolding dft_entry_def
      by (intro sum.cong refl arg_cong2 [where f = "(*)"] nth_spec_field) simp_all
    finally show "g ! a ! b = spec_pindr k u v nholes R d (grid_x py npx) (grid_y py npx) ! a ! b"
      using pindr_nth [OF g ab] by simp
  qed
  with g show ?thesis by simp
qed

text \<open>
  The theorem at \<open>npx = 2\<close> under Python 2, where the grid is \<open>x = [0, 1]\<close>,
  \<open>y = [0, -1]\<close>, with the other defaults.
\<close>

theorem pindr_refines_reference_witness:
  "(0::real) < 350 \<and> (1::nat) \<le> 2 \<and> (1::nat) \<le> 8 \<and> (0::real) \<le> 2
   \<and> pindr Python2 350 1 1 2 8 2 (1 / 10) = Inr (spec_pindr 350 1 1 8 2 (1 / 10) [0, 1] [0, -1])"
proof -
  have x: "grid_x Python2 2 = [0, 1]" and y: "grid_y Python2 2 = [0, -1]"
    by (simp_all add: grid_x_def grid_y_def Let_def arange_def upto.simps)
  show ?thesis
    using pindr_refines_reference [of 350 2 8 2 Python2 1 1 "1 / 10"] by (simp add: x y)
qed

section \<open>Symmetry under rotation by 180 degrees\<close>



lemma cmod_twiddle [simp]: "cmod (twiddle N j) = 1"
  by (simp add: twiddle_def)

























end
